theory Spec2Isabelle
  imports Main "HOL-Library.Word"
begin

unbundle bit_operations_syntax

section \<open>Bytes, strings and the 32-bit length prefix\<close>

text \<open>
  A Go \<^verbatim>\<open>[]byte\<close> is a list of 8-bit words; a Go \<^verbatim>\<open>string\<close> is a sequence of bytes as
  well, here an Isabelle \<^typ>\<open>string\<close> (a \<^typ>\<open>char\<close> is exactly one byte). The conversions
  \<^verbatim>\<open>[]byte(s)\<close> and \<^verbatim>\<open>string(b)\<close> copy byte for byte.
\<close>

type_synonym byte = "8 word"
type_synonym bytes = "byte list"

definition bytes_of :: "string \<Rightarrow> bytes" where
  "bytes_of s = map (\<lambda>ch. of_nat (of_char ch)) s"

definition string_of :: "bytes \<Rightarrow> string" where
  "string_of b = map (\<lambda>w. char_of (unat w)) b"

text \<open>\<^verbatim>\<open>binary.BigEndian.PutUint32\<close> and \<^verbatim>\<open>binary.BigEndian.Uint32\<close> on a 4-byte window.\<close>

definition PutUint32 :: "32 word \<Rightarrow> bytes" where
  "PutUint32 w = [ucast (drop_bit 24 w), ucast (drop_bit 16 w), ucast (drop_bit 8 w), ucast w]"

definition Uint32 :: "bytes \<Rightarrow> 32 word" where
  "Uint32 b = ucast (b ! 3) OR push_bit 8 (ucast (b ! 2)) OR push_bit 16 (ucast (b ! 1))
                OR push_bit 24 (ucast (b ! 0))"

text \<open>
  \<^verbatim>\<open>enc32(b, v)\<close> writes \<^verbatim>\<open>uint32(v)\<close> big-endian into \<^verbatim>\<open>b[:4]\<close> and returns \<^verbatim>\<open>b[4:]\<close>;
  the model returns the four bytes written. \<^verbatim>\<open>dec32[int](b)\<close> returns \<^verbatim>\<open>b[4:]\<close> and the
  decoded length as an \<^verbatim>\<open>int\<close> (64-bit, so never negative).
\<close>

definition enc32 :: "nat \<Rightarrow> bytes" where
  "enc32 v = PutUint32 (of_nat v)"

definition dec32 :: "bytes \<Rightarrow> bytes \<times> nat" where
  "dec32 b = (drop 4 b, unat (Uint32 (take 4 b)))"

section \<open>Errors\<close>

text \<open>
  Every error value the layer can return. The first group are the errors of the bucket
  store, the second the \<^verbatim>\<open>fmt.Errorf\<close> values of cipher.go and bolt\_tx.go, and
  \<open>StorageError\<close> is the wrapper struct of bolt.go (operation, key, cause).
\<close>

datatype error =
    ErrTxNotWritable
  | ErrBucketNameRequired
  | ErrIncompatibleValue
  | ErrKeyRequired
  | ErrKeyTooLarge
  | ErrValueTooLarge
  | ErrBucketNotFound
  | BufTooSmall nat
  | DecryptFailed
  | PtTooSmall nat
  | SegTooShort nat
  | BucketNotFoundFor string
  | BucketNotFound
  | NilBucket
  | SliceBounds
  | StorageError string string error

section \<open>The AEAD interface and the two cipher.go revisions\<close>

text \<open>
  A value of Go's \<^verbatim>\<open>cipher.AEAD\<close> interface: the two sizes, \<^verbatim>\<open>Seal(dst[:0], nonce, pt, nil)\<close>
  and \<^verbatim>\<open>Open(dst[:0], nonce, ct, nil)\<close> (\<open>None\<close> is the authentication error). AES-GCM itself
  is not part of the repository, so it stays a parameter; \<open>aead_ok\<close> is the contract of
  the interface that the layer relies on.
\<close>

record aead =
  NonceSize :: nat
  Overhead :: nat
  Seal :: "bytes \<Rightarrow> bytes \<Rightarrow> bytes"
  Open :: "bytes \<Rightarrow> bytes \<Rightarrow> bytes option"

definition aead_ok :: "aead \<Rightarrow> bool" where
  "aead_ok a = (\<forall>n pt. length n = NonceSize a \<longrightarrow>
       Open a n (Seal a n pt) = Some pt \<and> length (Seal a n pt) = length pt + Overhead a)"

text \<open>
  \<^verbatim>\<open>crypto/rand\<close> as seen by one call: the stream of bytes it will deliver.
  \<^verbatim>\<open>randfill(b)\<close> fills \<^verbatim>\<open>b\<close> with the next \<^verbatim>\<open>len(b)\<close> of them.
\<close>

type_synonym entropy = "nat \<Rightarrow> byte"

definition randfill :: "nat \<Rightarrow> entropy \<Rightarrow> bytes" where
  "randfill n rnd = map rnd [0..<n]"

definition advance :: "nat \<Rightarrow> entropy \<Rightarrow> entropy" where
  "advance n rnd = (\<lambda>i. rnd (i + n))"

text \<open>
  \<^verbatim>\<open>encryptKV\<close> (the same text in both revisions of cipher.go, on \<^verbatim>\<open>c.ae\<close> resp. \<^verbatim>\<open>c.val\<close>).
  The function allocates one buffer \<^verbatim>\<open>ct\<close> of \<^verbatim>\<open>nl+ov+len(k)+len(v)+4\<close> bytes, fills
  \<^verbatim>\<open>ct[:nl]\<close> with the nonce, writes the length prefix, the path and the value behind it,
  seals \<^verbatim>\<open>pt[:n]\<close> into \<^verbatim>\<open>pt[:0]\<close> and returns the buffer. \<open>window\<close> is \<^verbatim>\<open>ct[nl:]\<close> before
  the call of \<^verbatim>\<open>Seal\<close>; \<^verbatim>\<open>Seal\<close> appends to a slice of length 0 with that capacity, so its
  output lands in the buffer when it fits and in a fresh array (leaving the buffer as it
  was) when it does not.
\<close>

definition encryptKV :: "aead \<Rightarrow> string \<Rightarrow> bytes \<Rightarrow> entropy \<Rightarrow> bytes" where
  "encryptKV a k v rnd =
     (let nl = NonceSize a; ov = Overhead a;
          nonce = randfill nl rnd;
          pt = enc32 (length k) @ bytes_of k @ v;
          window = pt @ replicate ov 0;
          sealed = Seal a nonce pt
      in nonce @ (if length sealed \<le> length window
                  then sealed @ drop (length sealed) window else window))"

text \<open>
  \<^verbatim>\<open>decryptKV\<close> (again the same text in both revisions). \<open>SliceBounds\<close> stands for the
  slice expression \<^verbatim>\<open>b[:4]\<close> of \<^verbatim>\<open>dec32\<close> on a plaintext of fewer than 4 bytes, which an
  AEAD that returns \<^verbatim>\<open>len(ct) - Overhead\<close> bytes never produces behind the length check.
\<close>

definition decryptKV :: "aead \<Rightarrow> bytes \<Rightarrow> error + (string \<times> bytes)" where
  "decryptKV a ct =
     (let nl = NonceSize a; ov = Overhead a in
      if length ct < nl + ov + 4 then Inl (BufTooSmall (length ct))
      else (case Open a (take nl ct) (drop nl ct) of
              None \<Rightarrow> Inl DecryptFailed
            | Some pt \<Rightarrow>
                if length pt < 4 then Inl SliceBounds
                else (let (z, kl) = dec32 pt in
                      if length z < kl then Inl (PtTooSmall (length z))
                      else Inr (string_of (take kl z), drop kl z))))"

text \<open>
  The keyed-digest revision of cipher.go (the second one in the source): the encryptor
  holds \<^verbatim>\<open>hkey\<close> and one AEAD; \<^verbatim>\<open>encKey\<close> is SHA3-256 over \<^verbatim>\<open>hkey \<parallel> k\<close>. The digest
  function is the standard library's; it is carried as a field since no claim depends on
  which function it is.
\<close>

record encryptor =
  hkey :: bytes
  ae :: aead
  sha3_256 :: "bytes \<Rightarrow> bytes"

definition encKey :: "encryptor \<Rightarrow> string \<Rightarrow> bytes" where
  "encKey c k = sha3_256 c (hkey c @ bytes_of k)"

text \<open>
  The AEAD-segment revision of cipher.go (the first one in the source): two AEADs and one
  fixed nonce; every path segment is sealed under \<^verbatim>\<open>c.key\<close> with \<^verbatim>\<open>c.nonce\<close>.
\<close>

record encryptor_seg =
  val :: aead
  key :: aead
  nonce :: bytes

definition encSegment :: "encryptor_seg \<Rightarrow> string \<Rightarrow> bytes" where
  "encSegment c s = Seal (key c) (nonce c) (bytes_of s)"

definition decSegment :: "encryptor_seg \<Rightarrow> bytes \<Rightarrow> error + string" where
  "decSegment c v =
     (if length v < Overhead (key c) then Inl (SegTooShort (length v))
      else (case Open (key c) (nonce c) v of
              None \<Rightarrow> Inl DecryptFailed
            | Some pt \<Rightarrow> Inr (string_of pt)))"

section \<open>Method calls in a running program\<close>

text \<open>
  A call of a method of \<^verbatim>\<open>*encryptor\<close> happens in a state of the program: the fields of
  the encryptor it is called on (the AEAD objects, and the contents of the byte slices
  \<^verbatim>\<open>hkey\<close> resp. \<^verbatim>\<open>nonce\<close>, which any code holding the pointer could overwrite) and the bytes
  that \<^verbatim>\<open>crypto/rand\<close> has not delivered yet. A call returns its result and the state it
  leaves behind. \<^verbatim>\<open>encryptKV\<close> is the only method that calls \<^verbatim>\<open>randfill\<close>, on a buffer of
  \<^verbatim>\<open>NonceSize\<close> bytes; no method assigns to a field of its receiver or writes into
  \<^verbatim>\<open>c.hkey\<close> or \<^verbatim>\<open>c.nonce\<close>, and every slice a method returns lies in a buffer the call
  allocated itself.
\<close>

datatype ret = RBytes bytes | RStr "error + string" | RKV "error + string \<times> bytes"

text \<open>The keyed-digest revision: \<^verbatim>\<open>encKey\<close>, \<^verbatim>\<open>encryptKV\<close>, \<^verbatim>\<open>decryptKV\<close>.\<close>

datatype call = EncKey string | EncryptKV string bytes | DecryptKV bytes

fun invoke :: "call \<Rightarrow> encryptor \<times> entropy \<Rightarrow> ret \<times> (encryptor \<times> entropy)" where
  "invoke (EncKey k) (c, rnd) = (RBytes (encKey c k), (c, rnd))"
| "invoke (EncryptKV k v) (c, rnd) =
     (RBytes (encryptKV (ae c) k v rnd), (c, advance (NonceSize (ae c)) rnd))"
| "invoke (DecryptKV ct) (c, rnd) = (RKV (decryptKV (ae c) ct), (c, rnd))"

fun run :: "call list \<Rightarrow> encryptor \<times> entropy \<Rightarrow> encryptor \<times> entropy" where
  "run [] w = w"
| "run (x # xs) w = run xs (snd (invoke x w))"

text \<open>The AEAD-segment revision: \<^verbatim>\<open>encSegment\<close>, \<^verbatim>\<open>decSegment\<close>, \<^verbatim>\<open>encryptKV\<close>, \<^verbatim>\<open>decryptKV\<close>.\<close>

datatype call_seg =
  EncSegment string | DecSegment bytes | EncryptKV_seg string bytes | DecryptKV_seg bytes

fun invoke_seg ::
  "call_seg \<Rightarrow> encryptor_seg \<times> entropy \<Rightarrow> ret \<times> (encryptor_seg \<times> entropy)" where
  "invoke_seg (EncSegment s) (c, rnd) = (RBytes (encSegment c s), (c, rnd))"
| "invoke_seg (DecSegment v) (c, rnd) = (RStr (decSegment c v), (c, rnd))"
| "invoke_seg (EncryptKV_seg k v) (c, rnd) =
     (RBytes (encryptKV (val c) k v rnd), (c, advance (NonceSize (val c)) rnd))"
| "invoke_seg (DecryptKV_seg ct) (c, rnd) = (RKV (decryptKV (val c) ct), (c, rnd))"

fun run_seg ::
  "call_seg list \<Rightarrow> encryptor_seg \<times> entropy \<Rightarrow> encryptor_seg \<times> entropy" where
  "run_seg [] w = w"
| "run_seg (x # xs) w = run_seg xs (snd (invoke_seg x w))"

text \<open>A small concrete AEAD and two encryptors over it, for evaluating the model.\<close>

definition tag16 :: bytes where
  "tag16 = replicate 16 0"

definition toy_open :: "bytes \<Rightarrow> bytes \<Rightarrow> bytes option" where
  "toy_open n ct = (if 16 \<le> length ct \<and> drop (length ct - 16) ct = tag16
                    then Some (take (length ct - 16) ct) else None)"

definition toy_aead :: aead where
  "toy_aead = \<lparr>NonceSize = 12, Overhead = 16, Seal = (\<lambda>n pt. pt @ tag16), Open = toy_open\<rparr>"

definition toy_digest :: "bytes \<Rightarrow> bytes" where
  "toy_digest x = take 32 (x @ replicate 32 0)"

definition toy_enc :: encryptor where
  "toy_enc = \<lparr>hkey = [1, 2, 3], ae = toy_aead, sha3_256 = toy_digest\<rparr>"

definition toy_seg :: encryptor_seg where
  "toy_seg = \<lparr>val = toy_aead, key = toy_aead, nonce = replicate 12 0\<rparr>"

definition zero_rnd :: entropy where
  "zero_rnd = (\<lambda>i. 0)"

section \<open>Paths\<close>

text \<open>
  The path functions of Go's standard library that bolt\_tx.go calls, on Unix (the only
  separator is \<open>/\<close>, there is no volume name). \<^verbatim>\<open>strings.Split(p, "/")\<close> returns the pieces
  of \<open>p\<close> between the slashes; the result is never empty, the empty string gives one empty
  piece.
\<close>

definition IsPathSeparator :: "char \<Rightarrow> bool" where
  "IsPathSeparator ch = (ch = CHR ''/'')"

fun strings_Split :: "string \<Rightarrow> string list" where
  "strings_Split [] = [[]]"
| "strings_Split (ch # cs) =
     (if ch = CHR ''/'' then [] # strings_Split cs
      else (ch # hd (strings_Split cs)) # tl (strings_Split cs))"

text \<open>
  \<^verbatim>\<open>filepath.Clean\<close>. The library reads the path from left to right and writes the cleaned
  path into a buffer \<open>out\<close>; \<open>dotdot\<close> is the length of the prefix of \<open>out\<close> that \<open>..\<close> must
  not remove. \<open>backtrack\<close> is its inner loop on \<open>..\<close>, which steps the write index back to
  the previous separator. The four branches of \<open>clean_loop\<close> are the four cases of the
  library's loop: a separator, a \<open>.\<close> element, a \<open>..\<close> element, and any other element, which
  is copied up to the next separator.
\<close>

function backtrack :: "string \<Rightarrow> nat \<Rightarrow> nat \<Rightarrow> nat" where
  "backtrack out dotdot w =
     (if w > dotdot \<and> \<not> IsPathSeparator (out ! w) then backtrack out dotdot (w - 1) else w)"
  by pat_completeness auto
termination
  by (relation "measure (\<lambda>(out, dotdot, w). w)") auto

declare backtrack.simps [simp del]

function clean_loop :: "bool \<Rightarrow> string \<Rightarrow> string \<Rightarrow> nat \<Rightarrow> string" where
  "clean_loop rooted [] out dotdot = out"
| "clean_loop rooted (ch # rest) out dotdot =
     (if IsPathSeparator ch then clean_loop rooted rest out dotdot
      else if ch = CHR ''.'' \<and> (rest = [] \<or> IsPathSeparator (hd rest))
        then clean_loop rooted rest out dotdot
      else if ch = CHR ''.'' \<and> hd rest = CHR ''.''
                \<and> (tl rest = [] \<or> IsPathSeparator (hd (tl rest)))
        then (if length out > dotdot
                then clean_loop rooted (tl rest)
                       (take (backtrack out dotdot (length out - 1)) out) dotdot
              else if \<not> rooted
                then clean_loop rooted (tl rest)
                       ((if out \<noteq> [] then out @ ''/'' else out) @ ''..'')
                       (length ((if out \<noteq> [] then out @ ''/'' else out) @ ''..''))
              else clean_loop rooted (tl rest) out dotdot)
      else clean_loop rooted (dropWhile (\<lambda>x. \<not> IsPathSeparator x) rest)
             ((if (rooted \<and> length out \<noteq> 1) \<or> (\<not> rooted \<and> length out \<noteq> 0)
               then out @ ''/'' else out)
              @ ch # takeWhile (\<lambda>x. \<not> IsPathSeparator x) rest)
             dotdot)"
  by pat_completeness auto
termination
  by (relation "measure (\<lambda>(rooted, path, out, dotdot). length path)")
     (auto simp: less_Suc_eq_le length_dropWhile_le)

definition Clean :: "string \<Rightarrow> string" where
  "Clean path =
     (if path = [] then ''.''
      else (let rooted = IsPathSeparator (hd path);
                out = (if rooted then clean_loop rooted (tl path) ''/'' 1
                       else clean_loop rooted path [] 0)
            in if out = [] then ''.'' else out))"

text \<open>
  \<^verbatim>\<open>filepath.Dir\<close> cleans the path up to and including its last separator;
  \<^verbatim>\<open>filepath.Base\<close> strips the trailing separators and returns what follows the last
  remaining one (\<open>.\<close> for the empty path, \<open>/\<close> for a path of separators only). \<open>scan_back\<close>
  and \<open>strip_slashes\<close> are their two loops over the index \<open>n\<close> from the end of the path.
\<close>

function scan_back :: "string \<Rightarrow> nat \<Rightarrow> nat" where
  "scan_back path n =
     (if n > 0 \<and> \<not> IsPathSeparator (path ! (n - 1)) then scan_back path (n - 1) else n)"
  by pat_completeness auto
termination
  by (relation "measure (\<lambda>(path, n). n)") auto

declare scan_back.simps [simp del]

function strip_slashes :: "string \<Rightarrow> nat \<Rightarrow> nat" where
  "strip_slashes path n =
     (if n > 0 \<and> IsPathSeparator (path ! (n - 1)) then strip_slashes path (n - 1) else n)"
  by pat_completeness auto
termination
  by (relation "measure (\<lambda>(path, n). n)") auto

declare strip_slashes.simps [simp del]

definition Dir :: "string \<Rightarrow> string" where
  "Dir path = Clean (take (scan_back path (length path)) path)"

definition Base :: "string \<Rightarrow> string" where
  "Base path =
     (if path = [] then ''.''
      else (let p1 = take (strip_slashes path (length path)) path;
                p2 = drop (scan_back p1 (length p1)) p1
            in if p2 = [] then ''/'' else p2))"

text \<open>\<^verbatim>\<open>split\<close> of bolt\_tx.go (the keyed-digest revision): directory and leaf of a path.\<close>

definition split :: "string \<Rightarrow> string \<times> string" where
  "split p = (let dn = Dir p; bn = Base p in (if dn = ''.'' then ''.root'' else dn, bn))"

text \<open>
  \<^verbatim>\<open>splitLeaf\<close> and \<^verbatim>\<open>splitBucket\<close> of the AEAD-segment revision of bolt\_tx.go: the
  segments of a path that names a leaf, resp. a bucket.
\<close>

definition splitLeaf :: "string \<Rightarrow> string list" where
  "splitLeaf p =
     (let v = strings_Split p in
      if length v = 0 then [''.root'']
      else if length v = 1 then [''.root'', v ! 0]
      else v)"

definition splitBucket :: "string \<Rightarrow> string list" where
  "splitBucket p = (if length p = 0 then [''.root''] else strings_Split p)"

section \<open>Facts about the ciphers\<close>

lemma byte_mod256: "unat (a::byte) mod 256 = unat a"
  using unsigned_less [of a, where ?'a = nat] by simp

lemma string_of_bytes_of [simp]: "string_of (bytes_of s) = s"
  by (induction s) (simp_all add: bytes_of_def string_of_def unat_of_nat)

lemma bytes_of_string_of [simp]: "bytes_of (string_of b) = b"
  by (induction b) (simp_all add: bytes_of_def string_of_def byte_mod256)

lemma length_bytes_of [simp]: "length (bytes_of s) = length s"
  by (simp add: bytes_of_def)

lemma length_PutUint32 [simp]: "length (PutUint32 w) = 4"
  by (simp add: PutUint32_def)

lemma Uint32_PutUint32: "Uint32 (PutUint32 w) = w"
proof (rule bit_word_eqI)
  fix n assume "n < LENGTH(32)"
  then have n: "n < 32" by simp
  consider "n < 8" | "8 \<le> n" "n < 16" | "16 \<le> n" "n < 24" | "24 \<le> n"
    by linarith
  then show "bit (Uint32 (PutUint32 w)) n = bit w n"
    using n unfolding Uint32_def PutUint32_def by cases (auto simp: bit_simps)
qed

lemma length_enc32 [simp]: "length (enc32 n) = 4"
  by (simp add: enc32_def)

lemma dec32_enc32:
  assumes "n < 2 ^ 32"
  shows "dec32 (enc32 n @ rest) = (rest, n)"
proof -
  have "unat (of_nat n :: 32 word) = n"
    using assms by (simp add: unat_of_nat)
  then show ?thesis
    by (simp add: dec32_def enc32_def Uint32_PutUint32)
qed

lemma length_randfill [simp]: "length (randfill n rnd) = n"
  by (simp add: randfill_def)

lemma encryptKV_layout:
  assumes "aead_ok a"
  shows "encryptKV a k v rnd =
           randfill (NonceSize a) rnd
             @ Seal a (randfill (NonceSize a) rnd) (enc32 (length k) @ bytes_of k @ v)"
proof -
  have "length (Seal a (randfill (NonceSize a) rnd) (enc32 (length k) @ bytes_of k @ v))
          = length (enc32 (length k) @ bytes_of k @ v) + Overhead a"
    using assms by (simp add: aead_ok_def)
  then show ?thesis
    by (simp add: encryptKV_def Let_def)
qed

lemma length_encryptKV:
  assumes "aead_ok a"
  shows "length (encryptKV a k v rnd) = NonceSize a + Overhead a + length k + length v + 4"
  using assms by (simp add: encryptKV_layout) (simp add: aead_ok_def)

lemma decryptKV_encryptKV:
  assumes ok: "aead_ok a" and len: "length k < 2 ^ 32"
  shows "decryptKV a (encryptKV a k v rnd) = Inr (k, v)"
proof -
  let ?n = "randfill (NonceSize a) rnd"
  let ?pt = "enc32 (length k) @ bytes_of k @ v"
  have op: "Open a ?n (Seal a ?n ?pt) = Some ?pt"
    and ln: "length (Seal a ?n ?pt) = length ?pt + Overhead a"
    using ok by (simp_all add: aead_ok_def)
  have d: "dec32 ?pt = (bytes_of k @ v, length k)"
    using len by (rule dec32_enc32)
  show ?thesis
    using op ln d by (simp add: decryptKV_def encryptKV_layout [OF ok] Let_def)
qed

lemma length_tag16 [simp]: "length tag16 = 16"
  by (simp add: tag16_def)

lemma toy_aead_ok: "aead_ok toy_aead"
  by (simp add: aead_ok_def toy_aead_def toy_open_def)

text \<open>
  C5. For every path string \<open>k\<close> shorter than \<open>2^32\<close> bytes and every value \<open>v\<close>, the envelope
  that \<open>encryptKV\<close> returns is the nonce followed by the AEAD seal of the 4-byte big-endian
  length of \<open>k\<close>, then \<open>k\<close>, then \<open>v\<close>; and \<open>decryptKV\<close> applied to that envelope returns
  exactly \<open>(k, v)\<close>.
\<close>

theorem C5_seal_open_identity:
  assumes "aead_ok a" and "length k < 2 ^ 32"
  shows "encryptKV a k v rnd =
           randfill (NonceSize a) rnd
             @ Seal a (randfill (NonceSize a) rnd)
                 (PutUint32 (of_nat (length k)) @ bytes_of k @ v)
         \<and> decryptKV a (encryptKV a k v rnd) = Inr (k, v)"
  using assms encryptKV_layout [of a k v rnd] decryptKV_encryptKV [of a k v rnd]
  by (simp add: enc32_def)

theorem C5_seal_open_identity_witness:
  "aead_ok toy_aead \<and> length ''a/b/001'' < (2::nat) ^ 32
   \<and> encryptKV toy_aead ''a/b/001'' [7, 8] zero_rnd =
       randfill (NonceSize toy_aead) zero_rnd
         @ Seal toy_aead (randfill (NonceSize toy_aead) zero_rnd)
             (PutUint32 (of_nat (length ''a/b/001'')) @ bytes_of ''a/b/001'' @ [7, 8])
   \<and> decryptKV toy_aead (encryptKV toy_aead ''a/b/001'' [7, 8] zero_rnd)
       = Inr (''a/b/001'', [7, 8])"
proof -
  have h1: "aead_ok toy_aead" by (rule toy_aead_ok)
  have h2: "length ''a/b/001'' < (2::nat) ^ 32" by simp
  show ?thesis
    using h1 h2 C5_seal_open_identity [OF h1 h2, of "[7, 8]" zero_rnd] by blast
qed

text \<open>
  C8. Every stored blob shorter than nonce size + tag size + 4 (32 bytes for the 12-byte
  nonce and 16-byte tag of AES-GCM) makes \<open>decryptKV\<close> return the "too small" error, which
  is not the authentication error, and neither a path nor a value.
\<close>

theorem C8_too_short:
  assumes "length ct < NonceSize a + Overhead a + 4"
  shows "decryptKV a ct = Inl (BufTooSmall (length ct))
         \<and> decryptKV a ct \<noteq> Inl DecryptFailed
         \<and> (\<forall>kv. decryptKV a ct \<noteq> Inr kv)
         \<and> (NonceSize a = 12 \<and> Overhead a = 16 \<longrightarrow> NonceSize a + Overhead a + 4 = 32)"
  using assms by (simp add: decryptKV_def Let_def)

theorem C8_too_short_witness:
  "length (replicate 31 (0::byte)) < NonceSize toy_aead + Overhead toy_aead + 4
   \<and> decryptKV toy_aead (replicate 31 0) = Inl (BufTooSmall 31)
   \<and> NonceSize toy_aead = 12 \<and> Overhead toy_aead = 16"
proof -
  have h: "length (replicate 31 (0::byte)) < NonceSize toy_aead + Overhead toy_aead + 4"
    by (simp add: toy_aead_def)
  show ?thesis
    using h C8_too_short [OF h] by (simp add: toy_aead_def)
qed

lemma fst_run [simp]: "fst (run cs (c, rnd)) = c"
proof (induction cs arbitrary: rnd)
  case Nil
  show ?case by simp
next
  case (Cons x xs)
  show ?case by (cases x) (simp_all add: Cons.IH)
qed

lemma fst_run_seg [simp]: "fst (run_seg cs (c, rnd)) = c"
proof (induction cs arbitrary: rnd)
  case Nil
  show ?case by simp
next
  case (Cons x xs)
  show ?case by (cases x) (simp_all add: Cons.IH)
qed

lemma invoke_EncKey_fst: "fst (invoke (EncKey s) w) = RBytes (encKey (fst w) s)"
  by (cases w) simp

lemma invoke_EncSegment_fst: "fst (invoke_seg (EncSegment s) w) = RBytes (encSegment (fst w) s)"
  by (cases w) simp

text \<open>
  The random source does reach the output of a method that reads it: two calls of
  \<open>encryptKV\<close> with the same arguments, one after the other, return different envelopes
  when the source delivers different bytes.
\<close>

lemma encryptKV_calls_differ:
  "fst (invoke (EncryptKV ''users'' [7]) (run [EncryptKV ''users'' [7]] (toy_enc, of_nat)))
     \<noteq> fst (invoke (EncryptKV ''users'' [7]) (toy_enc, of_nat))"
  by (simp add: toy_enc_def toy_aead_def encryptKV_def randfill_def advance_def Let_def
        upt_conv_Cons)

text \<open>
  C6. Two calls of the segment cipher on the same segment \<open>s\<close> under the same encryptor
  \<open>c\<close> return the same bytes, whatever the random source delivers and whatever other method
  calls of the encryptor (with any arguments, \<open>encryptKV\<close> included) run between the two:
  the call of \<open>encKey\<close> resp. \<open>encSegment\<close> made in the state that the calls \<open>cs\<close> leave behind,
  started with the random stream \<open>rnd1\<close>, returns what the call made on \<open>c\<close> with the
  unrelated random stream \<open>rnd2\<close> returns. For \<open>encSegment\<close> the nonce is the one stored in
  the encryptor.
\<close>

theorem C6_segment_deterministic:
  "fst (invoke (EncKey s) (run cs (c, rnd1))) = fst (invoke (EncKey s) (c, rnd2))
   \<and> fst (invoke_seg (EncSegment s) (run_seg ds (d, rnd1)))
       = fst (invoke_seg (EncSegment s) (d, rnd2))
   \<and> fst (invoke_seg (EncSegment s) (run_seg ds (d, rnd1)))
       = RBytes (Seal (key d) (nonce d) (bytes_of s))"
  by (simp add: invoke_EncKey_fst invoke_EncSegment_fst encSegment_def)

theorem C6_segment_deterministic_witness:
  "fst (invoke (EncKey ''users'')
          (run [EncryptKV ''users/u1'' [7], EncKey ''groups''] (toy_enc, of_nat)))
     = fst (invoke (EncKey ''users'') (toy_enc, zero_rnd))
   \<and> fst (invoke_seg (EncSegment ''users'')
            (run_seg [EncryptKV_seg ''users/u1'' [7], DecSegment [1, 2]] (toy_seg, of_nat)))
       = RBytes (bytes_of ''users'' @ tag16)"
  using C6_segment_deterministic
          [of "''users''" "[EncryptKV ''users/u1'' [7], EncKey ''groups'']" toy_enc of_nat
              zero_rnd "[EncryptKV_seg ''users/u1'' [7], DecSegment [1, 2]]" toy_seg]
  by (simp add: toy_seg_def toy_aead_def)

section \<open>Facts about paths\<close>

lemma scan_back_no_sep:
  "\<forall>ch \<in> set path. \<not> IsPathSeparator ch \<Longrightarrow> n \<le> length path \<Longrightarrow> scan_back path n = 0"
proof (induction n)
  case 0
  show ?case by (subst scan_back.simps) simp
next
  case (Suc n)
  then have "\<not> IsPathSeparator (path ! n)" by simp
  then show ?case using Suc by (subst scan_back.simps) simp
qed

lemma strip_slashes_no_sep:
  "path \<noteq> [] \<Longrightarrow> \<not> IsPathSeparator (last path) \<Longrightarrow> strip_slashes path (length path) = length path"
  by (subst strip_slashes.simps) (simp add: last_conv_nth)

lemma strings_Split_no_sep:
  "CHR ''/'' \<notin> set p \<Longrightarrow> strings_Split p = [p]"
  by (induction p) auto

lemma strings_Split_not_Nil [simp]: "strings_Split p \<noteq> []"
  by (induction p) auto

lemma Clean_not_Nil [simp]: "Clean p \<noteq> []"
  by (simp add: Clean_def Let_def)

lemma Dir_no_sep:
  assumes "CHR ''/'' \<notin> set p"
  shows "Dir p = ''.''"
proof -
  have "\<forall>ch \<in> set p. \<not> IsPathSeparator ch"
    using assms by (auto simp: IsPathSeparator_def)
  then have "scan_back p (length p) = 0"
    by (rule scan_back_no_sep) simp
  then show ?thesis
    by (simp add: Dir_def Clean_def)
qed

lemma Base_no_sep:
  assumes "CHR ''/'' \<notin> set p"
  shows "Base p = (if p = [] then ''.'' else p)"
proof (cases "p = []")
  case True
  then show ?thesis by (simp add: Base_def)
next
  case False
  have ns: "\<forall>ch \<in> set p. \<not> IsPathSeparator ch"
    using assms by (auto simp: IsPathSeparator_def)
  have "last p \<in> set p" using False by simp
  then have "\<not> IsPathSeparator (last p)" using ns by blast
  then have s: "strip_slashes p (length p) = length p"
    using False by (simp add: strip_slashes_no_sep)
  have "scan_back p (length p) = 0"
    using ns by (rule scan_back_no_sep) simp
  then show ?thesis
    using False s by (simp add: Base_def Let_def)
qed

text \<open>
  C9. A path without \<open>/\<close> is resolved to itself as the leaf, under the bucket \<open>.root\<close>: by
  \<open>split\<close> (the empty path, which \<open>filepath.Base\<close> turns into \<open>.\<close>, apart) and by
  \<open>splitLeaf\<close>. For every path \<open>q\<close> whatsoever the bucket part is not empty: \<open>split\<close> returns
  a non-empty directory, which \<open>strings.Split\<close> cuts into at least one bucket name, and
  \<open>splitLeaf\<close> returns at least one bucket name before the leaf.
\<close>

theorem C9_single_segment_root:
  assumes "CHR ''/'' \<notin> set p"
  shows "split p = (''.root'', if p = [] then ''.'' else p)
         \<and> splitLeaf p = [''.root'', p]
         \<and> fst (split q) \<noteq> [] \<and> strings_Split (fst (split q)) \<noteq> []
         \<and> 2 \<le> length (splitLeaf q)"
proof -
  obtain x xs where "strings_Split q = x # xs"
    by (cases "strings_Split q") simp_all
  then have "2 \<le> length (splitLeaf q)"
    by (cases xs) (simp_all add: splitLeaf_def)
  moreover have "fst (split q) \<noteq> []"
    by (simp add: split_def Let_def Dir_def)
  ultimately show ?thesis
    using assms by (simp add: split_def splitLeaf_def Dir_no_sep Base_no_sep strings_Split_no_sep)
qed

theorem C9_single_segment_root_witness:
  "CHR ''/'' \<notin> set ''key''
   \<and> split ''key'' = (''.root'', ''key'') \<and> splitLeaf ''key'' = [''.root'', ''key'']"
proof -
  have h: "CHR ''/'' \<notin> set ''key''" by simp
  show ?thesis
    using h C9_single_segment_root [OF h] by simp
qed

end
